theory Spec2Isabelle
  imports Main
begin

section \<open>JavaScript values, exceptions and Maps\<close>

text \<open>
  The time API is the class \<open>TimeAPI\<close> (a subclass of \<open>GlobalTimeContext\<close>). Its methods
  are embedded as functions from the state of the object to an outcome and the state
  afterwards. A JavaScript \<open>throw\<close> does not roll anything back, so a thrown exception
  comes with the state reached when it was thrown.
\<close>

datatype error =
    Error string      \<comment> \<open>\<open>new Error(message)\<close>\<close>
  | TypeError         \<comment> \<open>the engine's error for a method call on \<open>undefined\<close>\<close>

datatype 'a outcome = Returned 'a | Threw error

text \<open>
  The argument of \<open>getContextForView\<close> is an arbitrary JavaScript value; the method tests
  it with \<open>!objectPath\<close> and \<open>Array.isArray(objectPath)\<close>.
\<close>

datatype 'o js_value =
    Undefined
  | Null
  | Boolean bool
  | Number int
  | String string
  | Array "'o list"

fun truthy :: "'o js_value \<Rightarrow> bool" where
  "truthy Undefined = False"
| "truthy Null = False"
| "truthy (Boolean b) = b"
| "truthy (Number n) = (n \<noteq> 0)"
| "truthy (String str) = (str \<noteq> [])"
| "truthy (Array xs) = True"

fun isArray :: "'o js_value \<Rightarrow> bool" where
  "isArray (Array xs) = True"
| "isArray other = False"

fun elements :: "'o js_value \<Rightarrow> 'o list" where
  "elements (Array xs) = xs"
| "elements other = []"

text \<open>
  A JavaScript \<open>Map\<close> iterates in insertion order: \<open>set\<close> on a key that is present
  replaces the value where the key stands, \<open>set\<close> on a new key appends, \<open>delete\<close>
  removes the key. It is an association list here, so that the order of \<open>values()\<close>
  can be stated.
\<close>

type_synonym ('k, 'v) js_map = "('k \<times> 'v) list"

fun Map_get :: "('k, 'v) js_map \<Rightarrow> 'k \<Rightarrow> 'v option" where
  "Map_get [] k = None"
| "Map_get ((k', v') # m) k = (if k' = k then Some v' else Map_get m k)"

fun Map_set :: "('k, 'v) js_map \<Rightarrow> 'k \<Rightarrow> 'v \<Rightarrow> ('k, 'v) js_map" where
  "Map_set [] k v = [(k, v)]"
| "Map_set ((k', v') # m) k v =
     (if k' = k then (k, v) # m else (k', v') # Map_set m k v)"

definition Map_delete :: "('k, 'v) js_map \<Rightarrow> 'k \<Rightarrow> ('k, 'v) js_map" where
  "Map_delete m k = filter (\<lambda>e. fst e \<noteq> k) m"

definition Map_keys :: "('k, 'v) js_map \<Rightarrow> 'k list" where
  "Map_keys m = map fst m"

definition Map_values :: "('k, 'v) js_map \<Rightarrow> 'v list" where
  "Map_values m = map snd m"

section \<open>The data of the time API\<close>

text \<open>The descriptors of the JSDoc typedefs \<open>TimeSystem\<close> and \<open>Clock\<close>.\<close>

record TimeSystem =
  key :: string
  name :: string
  cssClass :: "string option"
  timeFormat :: string
  durationFormat :: "string option"

record Clock =
  key :: string
  name :: string
  description :: string
  currentValue :: "unit \<Rightarrow> int"

text \<open>
  The two mode keys imported from \<open>@/api/time/constants\<close> (not among the sources): two
  distinct constants.
\<close>

datatype Mode = FIXED_MODE_KEY | REALTIME_MODE_KEY

text \<open>
  A domain object, as far as the time API reads it: \<open>objectPath[0].identifier\<close>; the
  elements of an object path are such objects. The
  object API \<open>openmct.objects\<close> is an external collaborator; its two capabilities the time
  API calls are parameters, pure functions as the specification has them.
  \<open>makeKeyString\<close> yields \<open>None\<close> when it derives no string at all (\<open>undefined\<close>).
\<close>

record 'id DomainObject =
  "identifier" :: 'id

record 'id ObjectAPI =
  makeKeyString :: "'id \<Rightarrow> string option"
  getRelativePath :: "'id DomainObject list \<Rightarrow> string"

record 'id OpenMCT =
  objects :: "'id ObjectAPI"

text \<open>
  An Independent Time Context object. The time API reads its field \<open>objectPath\<close>; the
  rest of its fields belong to the class \<open>IndependentTimeContext\<close>, which is not among the
  sources, and are kept as one opaque component.
\<close>

record ('id, 'c) IndependentTimeContext =
  objectPath :: "'id DomainObject list"
  ownState :: 'c

text \<open>
  The class \<open>IndependentTimeContext\<close> as a parameter: what its constructor puts into the
  other fields, and the four methods \<open>addIndependentContext\<close> calls. A method works on
  the object it is called on and may throw.
\<close>

record ('id, 'c, 'v) IndependentTimeContext_class =
  initialState :: "'id DomainObject list \<Rightarrow> 'c"
  resetContext :: "('id, 'c) IndependentTimeContext \<Rightarrow>
     unit outcome \<times> ('id, 'c) IndependentTimeContext"
  setMode :: "Mode \<Rightarrow> ('id, 'c) IndependentTimeContext \<Rightarrow>
     unit outcome \<times> ('id, 'c) IndependentTimeContext"
  setClock :: "string option \<Rightarrow> 'v \<Rightarrow> ('id, 'c) IndependentTimeContext \<Rightarrow>
     unit outcome \<times> ('id, 'c) IndependentTimeContext"
  setBounds :: "'v \<Rightarrow> ('id, 'c) IndependentTimeContext \<Rightarrow>
     unit outcome \<times> ('id, 'c) IndependentTimeContext"

text \<open>
  Objects have identity: \<open>independentContexts\<close> holds references, and a caller of
  \<open>getContextForView\<close> keeps the reference it was given. The objects live in a store
  indexed by reference; \<open>allocated\<close> counts the references handed out so far, and
  \<open>new\<close> takes the next one. \<open>emitted\<close> is the sequence of notifications the time API
  has emitted, each an event name with its argument.
\<close>

type_synonym ref = nat

record ('id, 'c) TimeAPI =
  openmct :: "'id OpenMCT"
  timeSystems :: "(string, TimeSystem) js_map"
  clocks :: "(string, Clock) js_map"
  independentContexts :: "(string, ref) js_map"
  store :: "ref \<Rightarrow> ('id, 'c) IndependentTimeContext"
  allocated :: nat
  emitted :: "(string \<times> string) list"

text \<open>What \<open>getContextForView\<close> returns: \<open>this\<close>, or a reference to an independent context.\<close>

datatype TimeContext = GlobalTimeContext | IndependentContext ref

section \<open>The operations\<close>

text \<open>
  The constructor, after \<open>super()\<close> has set up the fields of \<open>GlobalTimeContext\<close>:
  \<open>this.openmct = openmct\<close> and \<open>this.independentContexts = new Map()\<close>. The fields
  \<open>timeSystems\<close> and \<open>clocks\<close> come from the superclass, which is not among the
  sources; they are Maps, as the calls of \<open>set\<close> and \<open>values\<close> on them show.
\<close>

definition TimeAPI_constructor ::
  "('id, 'c) TimeAPI \<Rightarrow> 'id OpenMCT \<Rightarrow> ('id, 'c) TimeAPI" where
  "TimeAPI_constructor super mct = super\<lparr>openmct := mct, independentContexts := []\<rparr>"

definition addTimeSystem :: "TimeSystem \<Rightarrow> ('id, 'c) TimeAPI \<Rightarrow> ('id, 'c) TimeAPI" where
  "addTimeSystem timeSystem s =
     s\<lparr>timeSystems := Map_set (timeSystems s) (TimeSystem.key timeSystem) timeSystem\<rparr>"

definition getAllTimeSystems :: "('id, 'c) TimeAPI \<Rightarrow> TimeSystem list" where
  "getAllTimeSystems s = Map_values (timeSystems s)"

definition addClock :: "Clock \<Rightarrow> ('id, 'c) TimeAPI \<Rightarrow> ('id, 'c) TimeAPI" where
  "addClock clock s = s\<lparr>clocks := Map_set (clocks s) (Clock.key clock) clock\<rparr>"

definition getAllClocks :: "('id, 'c) TimeAPI \<Rightarrow> Clock list" where
  "getAllClocks s = Map_values (clocks s)"

definition getIndependentContext :: "('id, 'c) TimeAPI \<Rightarrow> string \<Rightarrow> ref option" where
  "getIndependentContext s objectKey = Map_get (independentContexts s) objectKey"

text \<open>
  Modelled from the spec: \<open>emit\<close> of the event emitter the contexts inherit from, which
  is missing from the sources. It delivers a named notification with its argument; the
  listeners belong to the views and are outside the time API, so the notification is
  recorded and nothing else changes.
\<close>

definition emit ::
  "string \<Rightarrow> string \<Rightarrow> ('id, 'c) TimeAPI \<Rightarrow> unit outcome \<times> ('id, 'c) TimeAPI" where
  "emit event arg s = (Returned (), s\<lparr>emitted := emitted s @ [(event, arg)]\<rparr>)"

text \<open>
  Modelled from the spec: the constructor of \<open>IndependentTimeContext\<close>, which is missing
  from the sources. The object is constructed with the object path it was created for;
  \<open>new\<close> gives it a reference no object has yet.
\<close>

definition new_IndependentTimeContext ::
  "('id, 'c, 'v) IndependentTimeContext_class \<Rightarrow> 'id DomainObject list \<Rightarrow>
   ('id, 'c) TimeAPI \<Rightarrow> ref \<times> ('id, 'c) TimeAPI" where
  "new_IndependentTimeContext I path s =
     (allocated s,
      s\<lparr>store := (store s)(allocated s := \<lparr>objectPath = path, ownState = initialState I path\<rparr>),
        allocated := Suc (allocated s)\<rparr>)"

text \<open>A method call on the object behind a reference: the object is updated in place.\<close>

definition call ::
  "(('id, 'c) IndependentTimeContext \<Rightarrow> unit outcome \<times> ('id, 'c) IndependentTimeContext) \<Rightarrow>
   ref \<Rightarrow> ('id, 'c) TimeAPI \<Rightarrow> unit outcome \<times> ('id, 'c) TimeAPI" where
  "call method r s =
     (case method (store s r) of (result, obj) \<Rightarrow> (result, s\<lparr>store := (store s)(r := obj)\<rparr>))"

text \<open>One statement after another: an exception ends the sequence.\<close>

definition and_then ::
  "('s \<Rightarrow> unit outcome \<times> 's) \<Rightarrow> ('s \<Rightarrow> 'a outcome \<times> 's) \<Rightarrow> 's \<Rightarrow> 'a outcome \<times> 's" where
  "and_then first rest s =
     (case first s of
        (Returned u, s1) \<Rightarrow> rest s1
      | (Threw e, s1) \<Rightarrow> (Threw e, s1))"

text \<open>
  \<open>getContextForView(objectPath)\<close>. The parameter is written \<open>path\<close>, since \<open>objectPath\<close>
  names the field. \<open>viewKey\<close> is \<open>objectPath.length && makeKeyString(...)\<close>: the number 0
  for an empty array, else what \<open>makeKeyString\<close> yields; it is falsy when it is 0,
  \<open>undefined\<close> (both \<open>None\<close> here) or the empty string.
\<close>

definition getContextForView ::
  "('id, 'c, 'v) IndependentTimeContext_class \<Rightarrow> 'id DomainObject js_value \<Rightarrow>
   ('id, 'c) TimeAPI \<Rightarrow> TimeContext outcome \<times> ('id, 'c) TimeAPI" where
  "getContextForView I path s =
     (if \<not> truthy path \<or> \<not> isArray path then (Threw (Error ''No objectPath provided''), s)
      else
        let viewKey =
              (if length (elements path) = 0 then None
               else makeKeyString (objects (openmct s)) (identifier (elements path ! 0)))
        in case viewKey of
             None \<Rightarrow> (Returned GlobalTimeContext, s)
           | Some vk \<Rightarrow>
               if vk = [] then (Returned GlobalTimeContext, s)
               else
                 (case getIndependentContext s vk of
                    None \<Rightarrow>
                      (case new_IndependentTimeContext I (elements path) s of
                         (viewTimeContext, s1) \<Rightarrow>
                           (Returned (IndependentContext viewTimeContext),
                            s1\<lparr>independentContexts :=
                                  Map_set (independentContexts s1) vk viewTimeContext\<rparr>))
                  | Some viewTimeContext \<Rightarrow>
                      let currentPath = getRelativePath (objects (openmct s))
                                          (objectPath (store s viewTimeContext));
                          newPath = getRelativePath (objects (openmct s)) (elements path)
                      in if currentPath \<noteq> newPath then
                           (let s1 = s\<lparr>independentContexts :=
                                         Map_delete (independentContexts s) vk\<rparr>
                            in case new_IndependentTimeContext I (elements path) s1 of
                                 (fresh, s2) \<Rightarrow>
                                   (Returned (IndependentContext fresh),
                                    s2\<lparr>independentContexts :=
                                          Map_set (independentContexts s2) vk fresh\<rparr>))
                         else (Returned (IndependentContext viewTimeContext), s)))"

text \<open>
  \<open>addIndependentContext(key, value, clockKey)\<close>. The parameter \<open>key\<close> is written
  \<open>objectKey\<close>, since \<open>key\<close> names the descriptors' field. \<open>getIndependentContext\<close>
  yields \<open>undefined\<close> for a key with no entry, and the call of \<open>resetContext\<close> on it
  throws a \<open>TypeError\<close>. \<open>clockKey\<close> is \<open>None\<close> when the argument is left out; the test
  \<open>if (clockKey)\<close> holds for a string that is not empty. The function returned is the
  closure that emits \<open>removeOwnContext\<close>.
\<close>

definition clockKey_given :: "string option \<Rightarrow> bool" where
  "clockKey_given clockKey = (case clockKey of None \<Rightarrow> False | Some ck \<Rightarrow> ck \<noteq> [])"

definition addIndependentContext ::
  "('id, 'c, 'v) IndependentTimeContext_class \<Rightarrow> string \<Rightarrow> 'v \<Rightarrow> string option \<Rightarrow>
   ('id, 'c) TimeAPI \<Rightarrow>
   (('id, 'c) TimeAPI \<Rightarrow> unit outcome \<times> ('id, 'c) TimeAPI) outcome \<times> ('id, 'c) TimeAPI" where
  "addIndependentContext I objectKey value clockKey s =
     (case getIndependentContext s objectKey of
        None \<Rightarrow> (Threw TypeError, s)
      | Some timeContext \<Rightarrow>
          and_then (call (resetContext I) timeContext)
            (and_then
               (if clockKey_given clockKey then
                  and_then (call (setMode I REALTIME_MODE_KEY) timeContext)
                    (call (setClock I clockKey value) timeContext)
                else
                  and_then (call (setMode I FIXED_MODE_KEY) timeContext)
                    (call (setBounds I value) timeContext))
               (and_then (emit ''refreshContext'' objectKey)
                  (\<lambda>s'. (Returned (emit ''removeOwnContext'' objectKey), s'))))
            s)"

text \<open>
  What every reachable state of the registry of independent contexts satisfies: a key
  has one entry, no two keys share an object, and every reference in it has been
  handed out by \<open>new\<close>.
\<close>

definition registry_ok :: "('id, 'c) TimeAPI \<Rightarrow> bool" where
  "registry_ok s =
     (distinct (Map_keys (independentContexts s)) \<and>
      distinct (Map_values (independentContexts s)) \<and>
      list_all (\<lambda>r. r < allocated s) (Map_values (independentContexts s)))"

text \<open>
  What a registry filled by \<open>addTimeSystem\<close> (or \<open>addClock\<close>) satisfies: a Map has one
  entry for a key, and every descriptor stands under its own key.
\<close>

definition keyed_by :: "('d \<Rightarrow> 'k) \<Rightarrow> ('k, 'd) js_map \<Rightarrow> bool" where
  "keyed_by keyOf m = (distinct (Map_keys m) \<and> list_all (\<lambda>e. keyOf (snd e) = fst e) m)"

section \<open>A concrete instance\<close>

text \<open>
  A stand-in for the class \<open>IndependentTimeContext\<close> that records the calls made on an
  object, in order, and an object API over identifiers that are key strings already
  (the identifier \<open>undefined\<close> has no key string). They serve to evaluate the
  operations on concrete states.
\<close>

datatype method_call =
    ResetContext
  | SetMode Mode
  | SetClock "string option" "int \<times> int"
  | SetBounds "int \<times> int"

definition record_call ::
  "method_call \<Rightarrow> ('id, method_call list) IndependentTimeContext \<Rightarrow>
   unit outcome \<times> ('id, method_call list) IndependentTimeContext" where
  "record_call c obj = (Returned (), obj\<lparr>ownState := ownState obj @ [c]\<rparr>)"

definition recording_class ::
  "(string, method_call list, int \<times> int) IndependentTimeContext_class" where
  "recording_class =
     \<lparr>initialState = (\<lambda>path. []),
      resetContext = record_call ResetContext,
      setMode = (\<lambda>m. record_call (SetMode m)),
      setClock = (\<lambda>ck v. record_call (SetClock ck v)),
      setBounds = (\<lambda>v. record_call (SetBounds v))\<rparr>"

text \<open>
  A stand-in whose \<open>setClock\<close> knows one clock, \<open>local\<close>, and throws for any other clock
  key, as the specification has \<open>setClock\<close> fail for a key that is not registered.
\<close>

definition validating_class ::
  "(string, method_call list, int \<times> int) IndependentTimeContext_class" where
  "validating_class =
     recording_class\<lparr>setClock :=
       (\<lambda>ck v obj. if ck = Some ''local'' then record_call (SetClock ck v) obj
                    else (Threw (Error ''Unknown clock''), obj))\<rparr>"

definition sample_objects :: "string ObjectAPI" where
  "sample_objects =
     \<lparr>makeKeyString = (\<lambda>i. if i = ''undefined'' then None else Some i),
      getRelativePath =
        (\<lambda>path. concat (map (\<lambda>obj. CHR ''/'' # identifier obj) (rev path)))\<rparr>"

text \<open>The time API right after construction: nothing registered, nothing emitted.\<close>

definition sample_api :: "(string, method_call list) TimeAPI" where
  "sample_api =
     \<lparr>openmct = \<lparr>objects = sample_objects\<rparr>,
      timeSystems = [], clocks = [], independentContexts = [],
      store = (\<lambda>r. \<lparr>objectPath = [], ownState = []\<rparr>),
      allocated = 0, emitted = []\<rparr>"

text \<open>
  The time API after a view has resolved its context for the path \<open>[obj-42]\<close>: the
  object with reference 0 is registered under the key \<open>obj-42\<close>.
\<close>

definition sample_registered :: "(string, method_call list) TimeAPI" where
  "sample_registered =
     sample_api\<lparr>independentContexts := [(''obj-42'', 0)],
       store := (store sample_api)
         (0 := \<lparr>objectPath = [\<lparr>identifier = ''obj-42''\<rparr>], ownState = []\<rparr>),
       allocated := 1\<rparr>"

text \<open>Descriptors to register: two time systems and two clocks.\<close>

definition utc :: TimeSystem where
  "utc = \<lparr>TimeSystem.key = ''utc'', name = ''UTC'', cssClass = None,
           timeFormat = ''utc-format'', durationFormat = None\<rparr>"

definition sols :: TimeSystem where
  "sols = \<lparr>TimeSystem.key = ''sols'', name = ''Sols'', cssClass = None,
            timeFormat = ''sol-format'', durationFormat = None\<rparr>"

definition local_clock :: Clock where
  "local_clock = \<lparr>Clock.key = ''local'', name = ''Local Clock'',
                   description = ''ticks on the local machine'', currentValue = (\<lambda>u. 0)\<rparr>"

definition remote_clock :: Clock where
  "remote_clock = \<lparr>Clock.key = ''remote'', name = ''Remote Clock'',
                    description = ''ticks on telemetry'', currentValue = (\<lambda>u. 5000)\<rparr>"

text \<open>Descriptors registered under keys that are taken already.\<close>

definition utc_again :: TimeSystem where
  "utc_again = \<lparr>TimeSystem.key = ''utc'', name = ''UTC again'', cssClass = None,
                 timeFormat = ''iso'', durationFormat = None\<rparr>"

definition local_clock_again :: Clock where
  "local_clock_again = \<lparr>Clock.key = ''local'', name = ''Local again'',
                         description = ''replaces the local clock'', currentValue = (\<lambda>u. 1)\<rparr>"

text \<open>The object \<open>obj-42\<close> after it was moved into a folder: the same key, another path.\<close>

definition sample_moved_path :: "string DomainObject list" where
  "sample_moved_path = [\<lparr>identifier = ''obj-42''\<rparr>, \<lparr>identifier = ''folder''\<rparr>]"

text \<open>
  The time API after \<open>addIndependentContext('obj-42', {start: 10, end: 20})\<close> on
  \<open>sample_registered\<close>: fixed bounds on the registered context, one notification.
\<close>

definition sample_overridden :: "(string, method_call list) TimeAPI" where
  "sample_overridden =
     sample_registered\<lparr>store := (store sample_registered)
         (0 := \<lparr>objectPath = [\<lparr>identifier = ''obj-42''\<rparr>],
                ownState = [ResetContext, SetMode FIXED_MODE_KEY, SetBounds (10, 20)]\<rparr>),
       emitted := [(''refreshContext'', ''obj-42'')]\<rparr>"

section \<open>Facts about Maps\<close>

lemma Map_get_None_iff: "Map_get m k = None \<longleftrightarrow> k \<notin> set (Map_keys m)"
  by (induction m) (auto simp: Map_keys_def split: if_splits)

lemma Map_get_in_values: "Map_get m k = Some v \<Longrightarrow> v \<in> set (Map_values m)"
  by (induction m) (auto simp: Map_values_def split: if_splits)

lemma Map_get_set_same: "Map_get (Map_set m k v) k = Some v"
  by (induction m) auto

lemma Map_get_set_other: "k' \<noteq> k \<Longrightarrow> Map_get (Map_set m k v) k' = Map_get m k'"
  by (induction m) auto

lemma Map_get_delete_same: "Map_get (Map_delete m k) k = None"
  by (induction m) (auto simp: Map_delete_def)

lemma Map_get_delete_other: "k' \<noteq> k \<Longrightarrow> Map_get (Map_delete m k) k' = Map_get m k'"
  by (induction m) (auto simp: Map_delete_def)

lemma Map_set_new: "k \<notin> set (Map_keys m) \<Longrightarrow> Map_set m k v = m @ [(k, v)]"
  by (induction m) (auto simp: Map_keys_def)

lemma Map_keys_set_present: "k \<in> set (Map_keys m) \<Longrightarrow> Map_keys (Map_set m k v) = Map_keys m"
  by (induction m) (force simp: Map_keys_def)+

lemma Map_keys_delete: "Map_keys (Map_delete m k) = filter (\<lambda>k'. k' \<noteq> k) (Map_keys m)"
  by (simp add: Map_keys_def Map_delete_def filter_map comp_def)

lemma Map_values_delete_subset: "set (Map_values (Map_delete m k)) \<subseteq> set (Map_values m)"
  by (auto simp: Map_values_def Map_delete_def)

lemma distinct_values_delete:
  "distinct (Map_values m) \<Longrightarrow> distinct (Map_values (Map_delete m k))"
  by (induction m) (auto simp: Map_values_def Map_delete_def)

lemma Map_delete_removes_value:
  "distinct (Map_keys m) \<Longrightarrow> distinct (Map_values m) \<Longrightarrow> Map_get m k = Some v \<Longrightarrow>
   v \<notin> set (Map_values (Map_delete m k))"
proof (induction m)
  case Nil
  then show ?case by simp
next
  case (Cons e m)
  show ?case
  proof (cases "fst e = k")
    case True
    with Cons.prems have "snd e = v" "k \<notin> set (Map_keys m)" "snd e \<notin> set (Map_values m)"
      by (cases e; auto simp: Map_keys_def Map_values_def)+
    moreover from \<open>k \<notin> set (Map_keys m)\<close> have "Map_delete m k = m"
      by (auto simp: Map_delete_def Map_keys_def filter_id_conv)
    ultimately show ?thesis using True by (simp add: Map_delete_def)
  next
    case False
    with Cons.prems have "Map_get m k = Some v" "snd e \<noteq> v"
      by (cases e; auto simp: Map_keys_def Map_values_def dest: Map_get_in_values)+
    with Cons False show ?thesis
      by (auto simp: Map_delete_def Map_keys_def Map_values_def)
  qed
qed

lemma Map_values_set_present:
  "k \<in> set (Map_keys m) \<Longrightarrow>
   Map_values (Map_set m k v) = (Map_values m)[length (takeWhile (\<lambda>e. fst e \<noteq> k) m) := v]"
  by (induction m) (force simp: Map_keys_def Map_values_def)+

lemma position_in_Map:
  "k \<in> set (Map_keys m) \<Longrightarrow> length (takeWhile (\<lambda>e. fst e \<noteq> k) m) < length m \<and>
   Map_get m k = Some (Map_values m ! length (takeWhile (\<lambda>e. fst e \<noteq> k) m))"
  by (induction m) (force simp: Map_keys_def Map_values_def)+

lemma Map_keys_set:
  "Map_keys (Map_set m k v) = (if k \<in> set (Map_keys m) then Map_keys m else Map_keys m @ [k])"
  by (simp add: Map_keys_set_present Map_set_new) (simp add: Map_keys_def)

lemma Map_set_entries: "set (Map_set m k v) \<subseteq> insert (k, v) (set m)"
  by (induction m) (auto split: if_splits)

lemma Map_set_after_delete: "Map_set (Map_delete m k) k v = Map_delete m k @ [(k, v)]"
  by (rule Map_set_new) (simp add: Map_keys_delete)

section \<open>Resolving the context of a view\<close>

text \<open>The three ways \<open>getContextForView\<close> goes for a path whose first object has a key.\<close>

lemma getContextForView_stale:
  assumes "getIndependentContext s k = Some old"
    and "path \<noteq> []"
    and "makeKeyString (objects (openmct s)) (identifier (path ! 0)) = Some k"
    and "k \<noteq> []"
    and "getRelativePath (objects (openmct s)) (objectPath (store s old)) \<noteq>
         getRelativePath (objects (openmct s)) path"
  shows "getContextForView I (Array path) s =
     (Returned (IndependentContext (allocated s)),
      s\<lparr>independentContexts := Map_set (Map_delete (independentContexts s) k) k (allocated s),
        store := (store s)(allocated s := \<lparr>objectPath = path, ownState = initialState I path\<rparr>),
        allocated := Suc (allocated s)\<rparr>)"
  using assms by (simp add: getContextForView_def new_IndependentTimeContext_def)

lemma getContextForView_create:
  assumes "getIndependentContext s k = None"
    and "path \<noteq> []"
    and "makeKeyString (objects (openmct s)) (identifier (path ! 0)) = Some k"
    and "k \<noteq> []"
  shows "getContextForView I (Array path) s =
     (Returned (IndependentContext (allocated s)),
      s\<lparr>independentContexts := Map_set (independentContexts s) k (allocated s),
        store := (store s)(allocated s := \<lparr>objectPath = path, ownState = initialState I path\<rparr>),
        allocated := Suc (allocated s)\<rparr>)"
  using assms by (simp add: getContextForView_def new_IndependentTimeContext_def)

lemma getContextForView_existing:
  assumes "getIndependentContext s k = Some r"
    and "path \<noteq> []"
    and "makeKeyString (objects (openmct s)) (identifier (path ! 0)) = Some k"
    and "k \<noteq> []"
    and "getRelativePath (objects (openmct s)) (objectPath (store s r)) =
         getRelativePath (objects (openmct s)) path"
  shows "getContextForView I (Array path) s = (Returned (IndependentContext r), s)"
  using assms by (simp add: getContextForView_def)


text \<open>
  The registry of independent contexts is well-formed from the constructor on, and
  every operation keeps it so.
\<close>

lemma registry_ok_constructor: "registry_ok (TimeAPI_constructor super mct)"
  by (simp add: registry_ok_def TimeAPI_constructor_def Map_keys_def Map_values_def)

lemma registry_ok_insert:
  assumes "distinct (Map_keys m)" and "distinct (Map_values m)"
    and "\<forall>r \<in> set (Map_values m). r < n" and "k \<notin> set (Map_keys m)"
  shows "distinct (Map_keys (m @ [(k, n)])) \<and> distinct (Map_values (m @ [(k, n)])) \<and>
         (\<forall>r \<in> set (Map_values (m @ [(k, n)])). r < Suc n)"
  using assms by (auto simp: Map_keys_def Map_values_def less_Suc_eq)

lemma registry_ok_getContextForView:
  assumes ok: "registry_ok s"
  shows "registry_ok (snd (getContextForView I v s))"
proof (cases "\<exists>path k. v = Array path \<and> path \<noteq> [] \<and>
    makeKeyString (objects (openmct s)) (identifier (path ! 0)) = Some k \<and> k \<noteq> []")
  case False
  then have "snd (getContextForView I v s) = s"
    by (cases v) (auto simp: getContextForView_def split: option.splits)
  with ok show ?thesis by simp
next
  case True
  then obtain path k where v: "v = Array path" and path: "path \<noteq> []"
    and key: "makeKeyString (objects (openmct s)) (identifier (path ! 0)) = Some k"
    and k: "k \<noteq> []" by blast
  let ?m = "independentContexts s"
  from ok have d: "distinct (Map_keys ?m)" "distinct (Map_values ?m)"
    and below: "\<forall>r \<in> set (Map_values ?m). r < allocated s"
    by (simp_all add: registry_ok_def list_all_iff)
  show ?thesis
  proof (cases "getIndependentContext s k")
    case None
    then have new: "k \<notin> set (Map_keys ?m)"
      by (simp add: getIndependentContext_def Map_get_None_iff)
    from registry_ok_insert [OF d below new] show ?thesis
      by (simp add: v getContextForView_create [OF None path key k] registry_ok_def
          list_all_iff Map_set_new [OF new])
  next
    case (Some r)
    show ?thesis
    proof (cases "getRelativePath (objects (openmct s)) (objectPath (store s r)) =
         getRelativePath (objects (openmct s)) path")
      case True
      with ok show ?thesis by (simp add: v getContextForView_existing [OF Some path key k True])
    next
      case False
      let ?d = "Map_delete ?m k"
      have "distinct (Map_keys ?d)" using d(1) by (simp add: Map_keys_delete)
      moreover have "distinct (Map_values ?d)" using d(2) by (rule distinct_values_delete)
      moreover have "\<forall>r \<in> set (Map_values ?d). r < allocated s"
        using below Map_values_delete_subset [of ?m k] by blast
      moreover have "k \<notin> set (Map_keys ?d)" by (simp add: Map_keys_delete)
      ultimately show ?thesis
        using registry_ok_insert [of ?d "allocated s" k]
        by (simp add: v getContextForView_stale [OF Some path key k False] registry_ok_def
            list_all_iff Map_set_after_delete)
    qed
  qed
qed

lemma registry_ok_addIndependentContext:
  "registry_ok s \<Longrightarrow> registry_ok (snd (addIndependentContext I k v clockKey s))"
  by (auto simp: registry_ok_def addIndependentContext_def and_then_def call_def emit_def
      split: option.splits prod.splits outcome.splits)

lemma registry_ok_registrations:
  "registry_ok (addTimeSystem d s) = registry_ok s \<and> registry_ok (addClock c s) = registry_ok s"
  by (simp add: registry_ok_def addTimeSystem_def addClock_def)

text \<open>
  C1. When a context is registered under the key of the view's object and the relative
  path of the given object path differs from that of the registered context's path,
  \<open>getContextForView\<close> returns a context constructed for the new path: an object that
  did not exist before, so neither the old one nor any other registered one. The fresh
  object is the entry of the key afterwards, the only one; the old object is in the
  registry no more; the entries of other keys stay as they are.
\<close>

theorem getContextForView_replaces_stale:
  assumes ok: "registry_ok s"
    and reg: "getIndependentContext s k = Some old"
    and path: "path \<noteq> []"
    and key: "makeKeyString (objects (openmct s)) (identifier (path ! 0)) = Some k"
    and truthy_key: "k \<noteq> []"
    and differs: "getRelativePath (objects (openmct s)) (objectPath (store s old)) \<noteq>
         getRelativePath (objects (openmct s)) path"
  shows "case getContextForView I (Array path) s of
           (result, s') \<Rightarrow>
             result = Returned (IndependentContext (allocated s)) \<and>
             allocated s \<noteq> old \<and>
             allocated s \<notin> set (Map_values (independentContexts s)) \<and>
             store s' (allocated s) = \<lparr>objectPath = path, ownState = initialState I path\<rparr> \<and>
             getIndependentContext s' k = Some (allocated s) \<and>
             old \<notin> set (Map_values (independentContexts s')) \<and>
             filter (\<lambda>e. fst e = k) (independentContexts s') = [(k, allocated s)] \<and>
             (\<forall>k'. k' \<noteq> k \<longrightarrow> getIndependentContext s' k' = getIndependentContext s k') \<and>
             registry_ok s'"
proof -
  let ?m = "independentContexts s"
  let ?new = "allocated s"
  from ok have d: "distinct (Map_keys ?m)" "distinct (Map_values ?m)"
    and below: "\<forall>r \<in> set (Map_values ?m). r < ?new"
    by (simp_all add: registry_ok_def list_all_iff)
  from reg have old_in: "old \<in> set (Map_values ?m)"
    by (simp add: getIndependentContext_def Map_get_in_values)
  with below have "old < ?new" by blast
  then have fresh_old: "?new \<noteq> old" by simp
  from below have fresh: "?new \<notin> set (Map_values ?m)" by blast
  from reg d have gone: "old \<notin> set (Map_values (Map_delete ?m k))"
    by (simp add: getIndependentContext_def Map_delete_removes_value)
  have sub: "set (Map_values (Map_delete ?m k)) \<subseteq> set (Map_values ?m)"
    by (rule Map_values_delete_subset)
  let ?m' = "Map_set (Map_delete ?m k) k ?new"
  have m': "?m' = Map_delete ?m k @ [(k, ?new)]" by (rule Map_set_after_delete)
  have one: "filter (\<lambda>e. fst e = k) ?m' = [(k, ?new)]"
    unfolding m' by (simp add: Map_delete_def)
  have others: "\<forall>k'. k' \<noteq> k \<longrightarrow> Map_get ?m' k' = Map_get ?m k'"
    by (simp add: Map_get_set_other Map_get_delete_other)
  have keys: "distinct (Map_keys ?m')"
    unfolding m' using d(1) by (auto simp: Map_keys_def Map_delete_def distinct_map_filter)
  have vals: "distinct (Map_values ?m')"
    unfolding m' using distinct_values_delete [OF d(2), of k] fresh sub
    by (auto simp: Map_values_def)
  have bound: "\<forall>r \<in> set (Map_values ?m'). r < Suc ?new"
  proof
    fix r assume "r \<in> set (Map_values ?m')"
    then have "r = ?new \<or> r \<in> set (Map_values (Map_delete ?m k))"
      unfolding m' by (auto simp: Map_values_def)
    with sub below show "r < Suc ?new" by (auto simp: less_Suc_eq)
  qed
  have not_old: "old \<notin> set (Map_values ?m')"
    unfolding m' using gone fresh_old by (auto simp: Map_values_def)
  show ?thesis
    using fresh_old fresh one others keys vals bound not_old
    by (simp add: getContextForView_stale [OF reg path key truthy_key differs]
        getIndependentContext_def Map_get_set_same registry_ok_def list_all_iff)
qed

theorem getContextForView_replaces_stale_witness:
  "registry_ok sample_registered \<and>
   getIndependentContext sample_registered ''obj-42'' = Some 0 \<and>
   getRelativePath (objects (openmct sample_registered)) (objectPath (store sample_registered 0)) =
     ''/obj-42'' \<and>
   getRelativePath (objects (openmct sample_registered)) sample_moved_path = ''/folder/obj-42'' \<and>
   (case getContextForView recording_class (Array sample_moved_path) sample_registered of
      (result, s') \<Rightarrow>
        result = Returned (IndependentContext 1) \<and>
        independentContexts s' = [(''obj-42'', 1)] \<and>
        store s' 1 = \<lparr>objectPath = sample_moved_path, ownState = []\<rparr>)"
  using getContextForView_replaces_stale
      [where s = sample_registered and k = "''obj-42''" and old = 0
         and path = sample_moved_path and I = recording_class]
  by (simp add: registry_ok_def Map_keys_def Map_values_def getIndependentContext_def
      sample_registered_def sample_api_def sample_objects_def sample_moved_path_def
      recording_class_def getContextForView_def new_IndependentTimeContext_def Map_delete_def)



text \<open>
  C3, as amended. A value that is not an array makes \<open>getContextForView\<close> throw the error
  \<open>No objectPath provided\<close>, with the state as it was. The empty array is not refused:
  \<open>viewKey\<close> is then the falsy \<open>objectPath.length\<close>, and the call returns the global
  time context, the state as it was.
\<close>

theorem getContextForView_invalid_argument:
  "(\<not> isArray v \<longrightarrow> getContextForView I v s = (Threw (Error ''No objectPath provided''), s)) \<and>
   getContextForView I (Array []) s = (Returned GlobalTimeContext, s)"
  by (cases v) (simp_all add: getContextForView_def)

theorem getContextForView_invalid_argument_witness:
  "\<not> isArray (Undefined :: string DomainObject js_value) \<and>
   getContextForView recording_class Undefined sample_api =
     (Threw (Error ''No objectPath provided''), sample_api) \<and>
   getContextForView recording_class (Array []) sample_api = (Returned GlobalTimeContext, sample_api)"
  using getContextForView_invalid_argument [of Undefined recording_class sample_api]
  by simp

text \<open>
  C3 as stated fails for the empty array: the call does not throw, it returns the global
  time context.
\<close>

theorem getContextForView_empty_path_counterexample:
  "getContextForView recording_class (Array []) sample_api =
     (Returned GlobalTimeContext, sample_api)"
  by (simp add: getContextForView_def)

text \<open>
  C7. For a non-empty object path whose first element's identifier yields no lookup key
  (\<open>makeKeyString\<close> gives \<open>undefined\<close> or the empty string), \<open>getContextForView\<close> returns
  the global time context, and the state, the registry of independent contexts included,
  is as it was.
\<close>

theorem getContextForView_no_key:
  assumes "path \<noteq> []"
    and "makeKeyString (objects (openmct s)) (identifier (path ! 0)) = None \<or>
         makeKeyString (objects (openmct s)) (identifier (path ! 0)) = Some []"
  shows "getContextForView I (Array path) s = (Returned GlobalTimeContext, s)"
  using assms by (auto simp: getContextForView_def)

theorem getContextForView_no_key_witness:
  "[\<lparr>identifier = ''undefined''\<rparr>] \<noteq> [] \<and>
   makeKeyString (objects (openmct sample_api))
     (identifier ([\<lparr>identifier = ''undefined''\<rparr>] ! 0)) = None \<and>
   getContextForView recording_class (Array [\<lparr>identifier = ''undefined''\<rparr>]) sample_api =
     (Returned GlobalTimeContext, sample_api)"
  using getContextForView_no_key [of "[\<lparr>identifier = ''undefined''\<rparr>]" sample_api recording_class]
  by (simp add: sample_api_def sample_objects_def)

section \<open>Overriding the time of an object\<close>

text \<open>
  C4, as amended. \<open>addIndependentContext\<close> resolves the context by lookup alone: it never
  adds a registry entry and never constructs a context. When a context is registered
  under the key and the calls made on it return, the call returns, with the registered
  object in the state the calls left it in; and the call returns only if a context is
  registered under the key.
\<close>

theorem addIndependentContext_lookup_only:
  "(getIndependentContext s k = Some timeContext \<longrightarrow>
      resetContext I (store s timeContext) = (Returned (), c1) \<longrightarrow>
      setMode I (if clockKey_given clockKey then REALTIME_MODE_KEY else FIXED_MODE_KEY) c1 =
        (Returned (), c2) \<longrightarrow>
      (if clockKey_given clockKey then setClock I clockKey v c2 else setBounds I v c2) =
        (Returned (), c3) \<longrightarrow>
      (\<exists>release s'. addIndependentContext I k v clockKey s = (Returned release, s') \<and>
         store s' timeContext = c3)) \<and>
   ((\<exists>release s'. addIndependentContext I k v clockKey s = (Returned release, s')) \<longrightarrow>
      getIndependentContext s k \<noteq> None) \<and>
   independentContexts (snd (addIndependentContext I k v clockKey s)) = independentContexts s \<and>
   allocated (snd (addIndependentContext I k v clockKey s)) = allocated s"
  by (auto simp: addIndependentContext_def and_then_def call_def emit_def
      split: option.splits prod.splits outcome.splits)

theorem addIndependentContext_lookup_only_witness:
  "getIndependentContext sample_registered ''obj-42'' = Some 0 \<and>
   (\<exists>release s'.
      addIndependentContext recording_class ''obj-42'' (10, 20) None sample_registered =
        (Returned release, s') \<and>
      store s' 0 =
        \<lparr>objectPath = [\<lparr>identifier = ''obj-42''\<rparr>],
         ownState = [ResetContext, SetMode FIXED_MODE_KEY, SetBounds (10, 20)]\<rparr>) \<and>
   independentContexts
     (snd (addIndependentContext recording_class ''obj-42'' (10, 20) None sample_registered)) =
     [(''obj-42'', 0)]"
  using addIndependentContext_lookup_only
      [where s = sample_registered and k = "''obj-42''" and timeContext = 0
         and I = recording_class and clockKey = None and v = "(10, 20)"
         and ?c1.0 = "\<lparr>objectPath = [\<lparr>identifier = ''obj-42''\<rparr>], ownState = [ResetContext]\<rparr>"
         and ?c2.0 = "\<lparr>objectPath = [\<lparr>identifier = ''obj-42''\<rparr>],
            ownState = [ResetContext, SetMode FIXED_MODE_KEY]\<rparr>"
         and ?c3.0 = "\<lparr>objectPath = [\<lparr>identifier = ''obj-42''\<rparr>],
            ownState = [ResetContext, SetMode FIXED_MODE_KEY, SetBounds (10, 20)]\<rparr>"]
  by (simp add: getIndependentContext_def sample_registered_def sample_api_def
      recording_class_def record_call_def clockKey_given_def)

text \<open>
  C4 as stated fails: with no context registered under \<open>obj-42\<close>, the call throws
  instead of creating one.
\<close>

theorem addIndependentContext_no_lazy_creation_counterexample:
  "fst (addIndependentContext recording_class ''obj-42'' (10, 20) None sample_api) =
     Threw TypeError"
  by (simp add: addIndependentContext_def getIndependentContext_def sample_api_def)

text \<open>
  A call that throws emits nothing: the notification comes after the calls on the
  context, and an exception of one of them leaves \<open>addIndependentContext\<close> at once.
\<close>

lemma addIndependentContext_throw_emits_nothing:
  "fst (addIndependentContext I k v clockKey s) = Threw e \<Longrightarrow>
   emitted (snd (addIndependentContext I k v clockKey s)) = emitted s"
  by (auto simp: addIndependentContext_def and_then_def call_def emit_def
      split: option.splits prod.splits outcome.splits if_splits)

text \<open>
  C5, as amended. With a context registered under the key, \<open>resetContext\<close> is called on
  it first. Then, if \<open>clockKey\<close> is truthy (a string that is not empty), \<open>setMode\<close> is
  called with the realtime mode and after it \<open>setClock(clockKey, value)\<close>; otherwise
  (no clock key, or the empty string) \<open>setMode\<close> is called with the fixed mode and after
  it \<open>setBounds(value)\<close>. Each call is made on the registered object as the call before
  left it. When all of them have returned, the notification \<open>refreshContext\<close> with the
  key is emitted, the last one so far, and the function that emits \<open>removeOwnContext\<close>
  is returned. When one of them throws, \<open>addIndependentContext\<close> throws the same at
  once: the calls after it are not made and nothing is emitted.
\<close>

theorem addIndependentContext_applies_state:
  assumes "getIndependentContext s k = Some timeContext"
  shows "(clockKey_given clockKey \<longleftrightarrow> clockKey \<noteq> None \<and> clockKey \<noteq> Some []) \<and>
         (resetContext I (store s timeContext) = (Threw e, c1) \<longrightarrow>
            addIndependentContext I k v clockKey s =
              (Threw e, s\<lparr>store := (store s)(timeContext := c1)\<rparr>)) \<and>
         (resetContext I (store s timeContext) = (Returned (), c1) \<longrightarrow>
            (clockKey_given clockKey \<longrightarrow>
               setMode I REALTIME_MODE_KEY c1 = (o2, c2) \<longrightarrow>
               setClock I clockKey v c2 = (o3, c3) \<longrightarrow>
               addIndependentContext I k v clockKey s =
                 (case o2 of
                    Threw e2 \<Rightarrow> (Threw e2, s\<lparr>store := (store s)(timeContext := c2)\<rparr>)
                  | Returned u2 \<Rightarrow>
                      (case o3 of
                         Threw e3 \<Rightarrow> (Threw e3, s\<lparr>store := (store s)(timeContext := c3)\<rparr>)
                       | Returned u3 \<Rightarrow>
                           (Returned (emit ''removeOwnContext'' k),
                            s\<lparr>store := (store s)(timeContext := c3),
                              emitted := emitted s @ [(''refreshContext'', k)]\<rparr>)))) \<and>
            (\<not> clockKey_given clockKey \<longrightarrow>
               setMode I FIXED_MODE_KEY c1 = (o2, c2) \<longrightarrow>
               setBounds I v c2 = (o3, c3) \<longrightarrow>
               addIndependentContext I k v clockKey s =
                 (case o2 of
                    Threw e2 \<Rightarrow> (Threw e2, s\<lparr>store := (store s)(timeContext := c2)\<rparr>)
                  | Returned u2 \<Rightarrow>
                      (case o3 of
                         Threw e3 \<Rightarrow> (Threw e3, s\<lparr>store := (store s)(timeContext := c3)\<rparr>)
                       | Returned u3 \<Rightarrow>
                           (Returned (emit ''removeOwnContext'' k),
                            s\<lparr>store := (store s)(timeContext := c3),
                              emitted := emitted s @ [(''refreshContext'', k)]\<rparr>)))))"
  using assms
  by (auto simp: addIndependentContext_def and_then_def call_def emit_def clockKey_given_def
      split: option.splits outcome.splits)

theorem addIndependentContext_applies_state_witness:
  "getIndependentContext sample_registered ''obj-42'' = Some 0 \<and>
   clockKey_given (Some ''local'') \<and> \<not> clockKey_given None \<and> \<not> clockKey_given (Some []) \<and>
   addIndependentContext recording_class ''obj-42'' (-1000, 0) (Some ''local'') sample_registered =
     (Returned (emit ''removeOwnContext'' ''obj-42''),
      sample_registered\<lparr>store := (store sample_registered)
          (0 := \<lparr>objectPath = [\<lparr>identifier = ''obj-42''\<rparr>],
                 ownState = [ResetContext, SetMode REALTIME_MODE_KEY,
                             SetClock (Some ''local'') (-1000, 0)]\<rparr>),
        emitted := [(''refreshContext'', ''obj-42'')]\<rparr>) \<and>
   addIndependentContext recording_class ''obj-42'' (10, 20) None sample_registered =
     (Returned (emit ''removeOwnContext'' ''obj-42''),
      sample_registered\<lparr>store := (store sample_registered)
          (0 := \<lparr>objectPath = [\<lparr>identifier = ''obj-42''\<rparr>],
                 ownState = [ResetContext, SetMode FIXED_MODE_KEY, SetBounds (10, 20)]\<rparr>),
        emitted := [(''refreshContext'', ''obj-42'')]\<rparr>) \<and>
   addIndependentContext validating_class ''obj-42'' (-1000, 0) (Some ''remote'') sample_registered =
     (Threw (Error ''Unknown clock''),
      sample_registered\<lparr>store := (store sample_registered)
          (0 := \<lparr>objectPath = [\<lparr>identifier = ''obj-42''\<rparr>],
                 ownState = [ResetContext, SetMode REALTIME_MODE_KEY]\<rparr>)\<rparr>)"
  using addIndependentContext_applies_state
      [where s = sample_registered and k = "''obj-42''" and timeContext = 0
         and I = recording_class and clockKey = "Some ''local''" and v = "(-1000, 0)"
         and ?c1.0 = "\<lparr>objectPath = [\<lparr>identifier = ''obj-42''\<rparr>], ownState = [ResetContext]\<rparr>"
         and ?o2.0 = "Returned ()"
         and ?c2.0 = "\<lparr>objectPath = [\<lparr>identifier = ''obj-42''\<rparr>],
            ownState = [ResetContext, SetMode REALTIME_MODE_KEY]\<rparr>"
         and ?o3.0 = "Returned ()"
         and ?c3.0 = "\<lparr>objectPath = [\<lparr>identifier = ''obj-42''\<rparr>],
            ownState = [ResetContext, SetMode REALTIME_MODE_KEY,
                        SetClock (Some ''local'') (-1000, 0)]\<rparr>"]
    addIndependentContext_applies_state
      [where s = sample_registered and k = "''obj-42''" and timeContext = 0
         and I = recording_class and clockKey = None and v = "(10, 20)"
         and ?c1.0 = "\<lparr>objectPath = [\<lparr>identifier = ''obj-42''\<rparr>], ownState = [ResetContext]\<rparr>"
         and ?o2.0 = "Returned ()"
         and ?c2.0 = "\<lparr>objectPath = [\<lparr>identifier = ''obj-42''\<rparr>],
            ownState = [ResetContext, SetMode FIXED_MODE_KEY]\<rparr>"
         and ?o3.0 = "Returned ()"
         and ?c3.0 = "\<lparr>objectPath = [\<lparr>identifier = ''obj-42''\<rparr>],
            ownState = [ResetContext, SetMode FIXED_MODE_KEY, SetBounds (10, 20)]\<rparr>"]
    addIndependentContext_applies_state
      [where s = sample_registered and k = "''obj-42''" and timeContext = 0
         and I = validating_class and clockKey = "Some ''remote''" and v = "(-1000, 0)"
         and ?c1.0 = "\<lparr>objectPath = [\<lparr>identifier = ''obj-42''\<rparr>], ownState = [ResetContext]\<rparr>"
         and ?o2.0 = "Returned ()"
         and ?c2.0 = "\<lparr>objectPath = [\<lparr>identifier = ''obj-42''\<rparr>],
            ownState = [ResetContext, SetMode REALTIME_MODE_KEY]\<rparr>"
         and ?o3.0 = "Threw (Error ''Unknown clock'')"
         and ?c3.0 = "\<lparr>objectPath = [\<lparr>identifier = ''obj-42''\<rparr>],
            ownState = [ResetContext, SetMode REALTIME_MODE_KEY]\<rparr>"]
  by (simp add: getIndependentContext_def sample_registered_def sample_api_def
      recording_class_def validating_class_def record_call_def clockKey_given_def)

text \<open>
  C5 as stated fails on a resolvable context. A \<open>setClock\<close> that throws (the clock key
  is unknown) ends the call after the switch to the realtime mode, with no notification
  emitted; and a clock key that is provided but empty takes the fixed branch, with
  \<open>setBounds\<close>.
\<close>

theorem addIndependentContext_notification_counterexample:
  "getIndependentContext sample_registered ''obj-42'' = Some 0 \<and>
   addIndependentContext validating_class ''obj-42'' (-1000, 0) (Some ''unknown'') sample_registered =
     (Threw (Error ''Unknown clock''),
      sample_registered\<lparr>store := (store sample_registered)
          (0 := \<lparr>objectPath = [\<lparr>identifier = ''obj-42''\<rparr>],
                 ownState = [ResetContext, SetMode REALTIME_MODE_KEY]\<rparr>)\<rparr>) \<and>
   emitted (snd (addIndependentContext validating_class ''obj-42'' (-1000, 0) (Some ''unknown'')
                   sample_registered)) = [] \<and>
   addIndependentContext recording_class ''obj-42'' (10, 20) (Some []) sample_registered =
     (Returned (emit ''removeOwnContext'' ''obj-42''),
      sample_registered\<lparr>store := (store sample_registered)
          (0 := \<lparr>objectPath = [\<lparr>identifier = ''obj-42''\<rparr>],
                 ownState = [ResetContext, SetMode FIXED_MODE_KEY, SetBounds (10, 20)]\<rparr>),
        emitted := [(''refreshContext'', ''obj-42'')]\<rparr>)"
  by (simp add: addIndependentContext_def and_then_def call_def emit_def clockKey_given_def
      getIndependentContext_def sample_registered_def sample_api_def validating_class_def
      recording_class_def record_call_def)

lemma sample_overridden_reached:
  "addIndependentContext recording_class ''obj-42'' (10, 20) None sample_registered =
     (Returned (emit ''removeOwnContext'' ''obj-42''), sample_overridden)"
  by (simp add: addIndependentContext_def and_then_def call_def emit_def clockKey_given_def
      getIndependentContext_def sample_overridden_def sample_registered_def sample_api_def
      recording_class_def record_call_def)

text \<open>
  C6. The function \<open>addIndependentContext\<close> returns, called in any state, emits the
  notification \<open>removeOwnContext\<close> with the key and does nothing else: the registry of
  independent contexts, the entry of the key in it, the context objects and the
  registries of time systems and clocks are as they were.
\<close>

theorem release_only_notifies:
  assumes "addIndependentContext I k v clockKey s = (Returned release, s1)"
  shows "release t = (Returned (), t\<lparr>emitted := emitted t @ [(''removeOwnContext'', k)]\<rparr>) \<and>
         independentContexts (snd (release t)) = independentContexts t \<and>
         getIndependentContext (snd (release t)) k = getIndependentContext t k \<and>
         store (snd (release t)) = store t \<and> allocated (snd (release t)) = allocated t \<and>
         timeSystems (snd (release t)) = timeSystems t \<and> clocks (snd (release t)) = clocks t"
proof -
  from assms have "release = emit ''removeOwnContext'' k"
    by (auto simp: addIndependentContext_def and_then_def call_def emit_def
        split: option.splits prod.splits outcome.splits if_splits)
  then show ?thesis
    by (simp add: emit_def getIndependentContext_def)
qed

theorem release_only_notifies_witness:
  "addIndependentContext recording_class ''obj-42'' (10, 20) None sample_registered =
     (Returned (emit ''removeOwnContext'' ''obj-42''), sample_overridden) \<and>
   emit ''removeOwnContext'' ''obj-42'' sample_overridden =
     (Returned (),
      sample_overridden\<lparr>emitted :=
        [(''refreshContext'', ''obj-42''), (''removeOwnContext'', ''obj-42'')]\<rparr>) \<and>
   independentContexts (snd (emit ''removeOwnContext'' ''obj-42'' sample_overridden)) =
     [(''obj-42'', 0)]"
proof -
  have notified: "emitted sample_overridden = [(''refreshContext'', ''obj-42'')]"
    by (simp add: sample_overridden_def)
  have registered: "independentContexts sample_overridden = [(''obj-42'', 0)]"
    by (simp add: sample_overridden_def sample_registered_def)
  from release_only_notifies [OF sample_overridden_reached, of sample_overridden]
  show ?thesis
    by (simp add: sample_overridden_reached notified registered)
qed

text \<open>
  C10. With no context registered under the key, \<open>addIndependentContext\<close> fails:
  \<open>getIndependentContext\<close> yields nothing, and the call of \<open>resetContext\<close> on it throws.
  The state is as it was: the registry is unchanged and no notification is emitted.
\<close>

theorem addIndependentContext_unregistered:
  assumes "getIndependentContext s k = None"
  shows "addIndependentContext I k v clockKey s =
           (Threw TypeError, s)"
  using assms by (simp add: addIndependentContext_def)

theorem addIndependentContext_unregistered_witness:
  "getIndependentContext sample_api ''obj-7'' = None \<and>
   addIndependentContext recording_class ''obj-7'' (10, 20) (Some ''local'') sample_api =
     (Threw TypeError, sample_api)"
  using addIndependentContext_unregistered
      [of sample_api "''obj-7''" recording_class "(10, 20)" "Some ''local''"]
  by (simp add: getIndependentContext_def sample_api_def)

section \<open>The registries of time systems and clocks\<close>

lemma keyed_by_set: "keyed_by keyOf m \<Longrightarrow> keyed_by keyOf (Map_set m (keyOf d) d)"
  using Map_set_entries [of m "keyOf d" d]
  by (auto simp: keyed_by_def Map_keys_set list_all_iff)

lemma keyed_by_fold:
  "keyed_by keyOf m \<Longrightarrow> keyed_by keyOf (fold (\<lambda>d m. Map_set m (keyOf d) d) ds m)"
  by (induction ds arbitrary: m) (simp_all add: keyed_by_set)

lemma keyed_by_filter:
  "keyed_by keyOf m \<Longrightarrow>
   filter (\<lambda>d. keyOf d = k) (Map_values m) = (case Map_get m k of None \<Rightarrow> [] | Some d \<Rightarrow> [d])"
proof (induction m)
  case Nil
  then show ?case by (simp add: Map_values_def)
next
  case (Cons e m)
  then have IH: "filter (\<lambda>d. keyOf d = k) (Map_values m) =
      (case Map_get m k of None \<Rightarrow> [] | Some d \<Rightarrow> [d])"
    and e: "keyOf (snd e) = fst e" and fresh: "fst e \<notin> set (Map_keys m)"
    by (simp_all add: keyed_by_def Map_keys_def)
  show ?case
  proof (cases "fst e = k")
    case True
    with fresh have "Map_get m k = None" by (simp add: Map_get_None_iff)
    with IH True e show ?thesis by (cases e) (simp add: Map_values_def)
  next
    case False
    with IH e show ?thesis by (cases e) (simp add: Map_values_def)
  qed
qed

lemma register_all_new:
  "distinct (map keyOf ds) \<Longrightarrow> set (map keyOf ds) \<inter> set (Map_keys m) = {} \<Longrightarrow>
   fold (\<lambda>d m. Map_set m (keyOf d) d) ds m = m @ map (\<lambda>d. (keyOf d, d)) ds"
proof (induction ds arbitrary: m)
  case Nil
  then show ?case by simp
next
  case (Cons d ds)
  from Cons.prems have new: "keyOf d \<notin> set (Map_keys m)" by auto
  then have step: "Map_set m (keyOf d) d = m @ [(keyOf d, d)]" by (rule Map_set_new)
  from Cons.prems have "set (map keyOf ds) \<inter> set (Map_keys (m @ [(keyOf d, d)])) = {}"
    by (auto simp: Map_keys_def)
  with Cons.IH [of "m @ [(keyOf d, d)]"] Cons.prems step show ?case by simp
qed

lemma position_set:
  "k \<in> set (Map_keys m) \<Longrightarrow>
   length (takeWhile (\<lambda>e. fst e \<noteq> k) (Map_set m k' v)) = length (takeWhile (\<lambda>e. fst e \<noteq> k) m)"
  by (induction m) (force simp: Map_keys_def)+

lemma position_fold:
  "k \<in> set (Map_keys m) \<Longrightarrow>
   length (takeWhile (\<lambda>e. fst e \<noteq> k) (fold (\<lambda>d m. Map_set m (keyOf d) d) ds m)) =
     length (takeWhile (\<lambda>e. fst e \<noteq> k) m) \<and>
   k \<in> set (Map_keys (fold (\<lambda>d m. Map_set m (keyOf d) d) ds m))"
proof (induction ds arbitrary: m)
  case Nil
  then show ?case by simp
next
  case (Cons d ds)
  from Cons.prems have "k \<in> set (Map_keys (Map_set m (keyOf d) d))"
    by (simp add: Map_keys_set)
  from Cons.IH [OF this] Cons.prems show ?case by (simp add: position_set)
qed

lemma overwrite_in_place:
  assumes ok: "keyed_by keyOf m" and same: "keyOf b = keyOf a"
  shows "let m1 = Map_set m (keyOf a) a;
             m2 = fold (\<lambda>d m. Map_set m (keyOf d) d) between m1;
             m3 = Map_set m2 (keyOf b) b;
             i = length (takeWhile (\<lambda>e. fst e \<noteq> keyOf a) m1)
         in i < length (Map_values m1) \<and> Map_values m1 ! i = a \<and>
            Map_values m3 = (Map_values m2)[i := b] \<and>
            Map_values m3 ! i = b \<and>
            filter (\<lambda>d. keyOf d = keyOf a) (Map_values m3) = [b] \<and>
            Map_get m3 (keyOf a) = Some b"
proof -
  let ?m1 = "Map_set m (keyOf a) a"
  let ?m2 = "fold (\<lambda>d m. Map_set m (keyOf d) d) between ?m1"
  let ?m3 = "Map_set ?m2 (keyOf b) b"
  let ?i = "length (takeWhile (\<lambda>e. fst e \<noteq> keyOf a) ?m1)"
  have in1: "keyOf a \<in> set (Map_keys ?m1)" by (simp add: Map_keys_set)
  from position_in_Map [OF in1] have i1: "?i < length (Map_values ?m1)" "Map_values ?m1 ! ?i = a"
    by (simp_all add: Map_get_set_same Map_values_def)
  from position_fold [OF in1, of keyOf between]
  have pos2: "length (takeWhile (\<lambda>e. fst e \<noteq> keyOf a) ?m2) = ?i"
    and in2: "keyOf a \<in> set (Map_keys ?m2)" by simp_all
  from Map_values_set_present [OF in2, of b] pos2 same
  have upd: "Map_values ?m3 = (Map_values ?m2)[?i := b]" by simp
  from position_in_Map [OF in2] pos2 have i2: "?i < length (Map_values ?m2)"
    by (simp add: Map_values_def)
  have "keyed_by keyOf ?m3" using ok by (intro keyed_by_set keyed_by_fold)
  from keyed_by_filter [OF this, of "keyOf a"] same
  have one: "filter (\<lambda>d. keyOf d = keyOf a) (Map_values ?m3) = [b]"
    by (simp add: Map_get_set_same)
  from i1 upd i2 one same show ?thesis by (simp add: Let_def Map_get_set_same)
qed

lemma timeSystems_fold:
  "timeSystems (fold addTimeSystem tss s) =
     fold (\<lambda>d m. Map_set m (TimeSystem.key d) d) tss (timeSystems s) \<and>
   clocks (fold addTimeSystem tss s) = clocks s"
  by (induction tss arbitrary: s) (simp_all add: addTimeSystem_def)

lemma clocks_fold:
  "clocks (fold addClock cks s) = fold (\<lambda>d m. Map_set m (Clock.key d) d) cks (clocks s) \<and>
   timeSystems (fold addClock cks s) = timeSystems s"
  by (induction cks arbitrary: s) (simp_all add: addClock_def)

text \<open>
  C8. Registering time systems (clocks) with pairwise distinct keys, none of them taken
  already, appends them to what \<open>getAllTimeSystems\<close> (\<open>getAllClocks\<close>) returned before,
  in the order of registration, each descriptor once; on a new time API the result is
  the sequence of the registered descriptors itself. Registering clocks leaves the time
  systems as they are.
\<close>

theorem getAll_in_registration_order:
  assumes "distinct (map TimeSystem.key tss)"
    and "set (map TimeSystem.key tss) \<inter> set (Map_keys (timeSystems s)) = {}"
    and "distinct (map Clock.key cks)"
    and "set (map Clock.key cks) \<inter> set (Map_keys (clocks s)) = {}"
  shows "getAllTimeSystems (fold addTimeSystem tss s) = getAllTimeSystems s @ tss \<and>
         getAllClocks (fold addClock cks s) = getAllClocks s @ cks \<and>
         (timeSystems s = [] \<longrightarrow> getAllTimeSystems (fold addTimeSystem tss s) = tss) \<and>
         (clocks s = [] \<longrightarrow> getAllClocks (fold addClock cks s) = cks) \<and>
         getAllTimeSystems (fold addClock cks (fold addTimeSystem tss s)) =
           getAllTimeSystems s @ tss \<and>
         getAllClocks (fold addClock cks (fold addTimeSystem tss s)) = getAllClocks s @ cks \<and>
         distinct tss \<and> distinct cks"
  using assms
  by (auto simp: getAllTimeSystems_def getAllClocks_def timeSystems_fold clocks_fold
      register_all_new Map_values_def comp_def dest: distinct_map [THEN iffD1])


theorem getAll_in_registration_order_witness:
  "getAllTimeSystems (fold addTimeSystem [utc, sols] sample_api) = [utc, sols] \<and>
   getAllClocks (fold addClock [local_clock, remote_clock] sample_api) =
     [local_clock, remote_clock] \<and>
   distinct [utc, sols] \<and> distinct [local_clock, remote_clock]"
  using getAll_in_registration_order
      [of "[utc, sols]" sample_api "[local_clock, remote_clock]"]
  by (simp add: utc_def sols_def local_clock_def remote_clock_def sample_api_def
      Map_keys_def getAllTimeSystems_def getAllClocks_def Map_values_def)

lemma addTimeSystem_alone:
  "timeSystems (addTimeSystem d s) = Map_set (timeSystems s) (TimeSystem.key d) d"
  by (simp add: addTimeSystem_def)

lemma addClock_alone: "clocks (addClock d s) = Map_set (clocks s) (Clock.key d) d"
  by (simp add: addClock_def)

text \<open>
  C9. A time system \<open>b\<close> registered under the key of a time system \<open>a\<close> registered
  before it, with any registrations in between: \<open>addTimeSystem\<close> has no failing case,
  \<open>b\<close> replaces what stands at the position \<open>i\<close> that \<open>a\<close> took when it was registered
  and the other positions stay, so \<open>getAllTimeSystems\<close> has \<open>b\<close> at that position, \<open>b\<close>
  is its only descriptor with that key, and the registry has \<open>b\<close> under the key. The
  same holds of clocks.
\<close>

theorem duplicate_registration_overwrites:
  assumes "keyed_by TimeSystem.key (timeSystems s)"
    and "TimeSystem.key b = TimeSystem.key a"
    and "keyed_by Clock.key (clocks s)"
    and "Clock.key cb = Clock.key ca"
  shows "(let s1 = addTimeSystem a s;
              s2 = fold addTimeSystem between s1;
              s3 = addTimeSystem b s2;
              i = length (takeWhile (\<lambda>e. fst e \<noteq> TimeSystem.key a) (timeSystems s1))
          in i < length (getAllTimeSystems s1) \<and> getAllTimeSystems s1 ! i = a \<and>
             getAllTimeSystems s3 = (getAllTimeSystems s2)[i := b] \<and>
             getAllTimeSystems s3 ! i = b \<and>
             filter (\<lambda>d. TimeSystem.key d = TimeSystem.key a) (getAllTimeSystems s3) = [b] \<and>
             Map_get (timeSystems s3) (TimeSystem.key a) = Some b) \<and>
         (let s1 = addClock ca s;
              s2 = fold addClock cbetween s1;
              s3 = addClock cb s2;
              i = length (takeWhile (\<lambda>e. fst e \<noteq> Clock.key ca) (clocks s1))
          in i < length (getAllClocks s1) \<and> getAllClocks s1 ! i = ca \<and>
             getAllClocks s3 = (getAllClocks s2)[i := cb] \<and>
             getAllClocks s3 ! i = cb \<and>
             filter (\<lambda>d. Clock.key d = Clock.key ca) (getAllClocks s3) = [cb] \<and>
             Map_get (clocks s3) (Clock.key ca) = Some cb)"
proof -
  have ts: "let s1 = addTimeSystem a s;
              s2 = fold addTimeSystem between s1;
              s3 = addTimeSystem b s2;
              i = length (takeWhile (\<lambda>e. fst e \<noteq> TimeSystem.key a) (timeSystems s1))
          in i < length (getAllTimeSystems s1) \<and> getAllTimeSystems s1 ! i = a \<and>
             getAllTimeSystems s3 = (getAllTimeSystems s2)[i := b] \<and>
             getAllTimeSystems s3 ! i = b \<and>
             filter (\<lambda>d. TimeSystem.key d = TimeSystem.key a) (getAllTimeSystems s3) = [b] \<and>
             Map_get (timeSystems s3) (TimeSystem.key a) = Some b"
    unfolding Let_def getAllTimeSystems_def addTimeSystem_alone timeSystems_fold [THEN conjunct1]
    by (rule overwrite_in_place [OF assms(1,2), of between, unfolded Let_def])
  have "let s1 = addClock ca s;
              s2 = fold addClock cbetween s1;
              s3 = addClock cb s2;
              i = length (takeWhile (\<lambda>e. fst e \<noteq> Clock.key ca) (clocks s1))
          in i < length (getAllClocks s1) \<and> getAllClocks s1 ! i = ca \<and>
             getAllClocks s3 = (getAllClocks s2)[i := cb] \<and>
             getAllClocks s3 ! i = cb \<and>
             filter (\<lambda>d. Clock.key d = Clock.key ca) (getAllClocks s3) = [cb] \<and>
             Map_get (clocks s3) (Clock.key ca) = Some cb"
    unfolding Let_def getAllClocks_def addClock_alone clocks_fold [THEN conjunct1]
    by (rule overwrite_in_place [OF assms(3,4), of cbetween, unfolded Let_def])
  with ts show ?thesis by simp
qed

theorem duplicate_registration_overwrites_witness:
  "keyed_by TimeSystem.key (timeSystems sample_api) \<and>
   keyed_by Clock.key (clocks sample_api) \<and>
   getAllTimeSystems (addTimeSystem utc sample_api) = [utc] \<and>
   getAllTimeSystems (addTimeSystem sols (addTimeSystem utc sample_api)) = [utc, sols] \<and>
   getAllTimeSystems
     (addTimeSystem (utc_again)
        (addTimeSystem sols (addTimeSystem utc sample_api))) =
     [utc_again, sols] \<and>
   getAllClocks
     (addClock (local_clock_again)
        (addClock remote_clock (addClock local_clock sample_api))) =
     [local_clock_again, remote_clock]"
  using duplicate_registration_overwrites
      [where s = sample_api and a = utc and b = "utc_again"
         and between = "[sols]" and ca = local_clock
         and cb = "local_clock_again" and cbetween = "[remote_clock]"]
  by (simp add: keyed_by_def Map_keys_def sample_api_def utc_def sols_def local_clock_def
      remote_clock_def utc_again_def local_clock_again_def addTimeSystem_def addClock_def getAllTimeSystems_def getAllClocks_def
      Map_values_def Let_def)

end
